theory Spec2Isabelle
  imports Main
begin

section \<open>The environment of check4duplicates\<close>

text \<open>
  The program (src/check4duplicates/check4duplicates.py) reads the file system through
  \<^verbatim>\<open>os.path.isfile\<close>, \<^verbatim>\<open>os.path.isdir\<close>, \<^verbatim>\<open>os.stat\<close>, \<^verbatim>\<open>os.walk\<close> and
  \<^verbatim>\<open>filecmp.cmp\<close>, writes to standard output and calls the \<^verbatim>\<open>macos_tags\<close> package.
  The file system is a snapshot that does not change during a run.  A path resolves
  (symbolic links followed, as \<^verbatim>\<open>os.stat\<close> does) to a node or to nothing; a regular
  file carries its bytes (a \<^typ>\<open>char\<close> is a byte) and whether it can be opened for
  reading.
\<close>

type_synonym path = string

datatype file_type = S_IFREG | S_IFDIR | S_IFOTHER

datatype node =
    RegularFile string bool
  | DirectoryNode nat
  | SpecialNode nat

record stat_result =
  st_mode :: file_type
  st_size :: nat

fun node_stat :: "node \<Rightarrow> stat_result" where
  "node_stat (RegularFile bytes r) = \<lparr>st_mode = S_IFREG, st_size = length bytes\<rparr>"
| "node_stat (DirectoryNode n) = \<lparr>st_mode = S_IFDIR, st_size = n\<rparr>"
| "node_stat (SpecialNode n) = \<lparr>st_mode = S_IFOTHER, st_size = n\<rparr>"

text \<open>
  \<open>os_walk fs d\<close> is the sequence of triples \<open>(root, dirs, files)\<close> that
  \<^verbatim>\<open>os.walk(d)\<close> yields, in the order it yields them.  It is a parameter: the order
  is the file system's.
\<close>

record filesystem =
  resolve :: "path \<Rightarrow> node option"
  os_walk :: "path \<Rightarrow> (path \<times> string list \<times> string list) list"

datatype exn = TypeError | OSError path

text \<open>How the process ends: \<^verbatim>\<open>sys.exit(n)\<close>, or an exception nobody catches.\<close>

datatype outcome = Exit nat | Uncaught exn

text \<open>\<^verbatim>\<open>os.stat(p)\<close>: raises OSError when the path does not resolve.\<close>

definition os_stat :: "filesystem \<Rightarrow> path \<Rightarrow> stat_result option" where
  "os_stat fs p = map_option node_stat (resolve fs p)"

text \<open>\<^verbatim>\<open>os.path.isfile\<close> and \<^verbatim>\<open>os.path.isdir\<close>: a failing stat is False.\<close>

definition os_path_isfile :: "filesystem \<Rightarrow> path \<Rightarrow> bool" where
  "os_path_isfile fs p =
     (case os_stat fs p of None \<Rightarrow> False | Some st \<Rightarrow> st_mode st = S_IFREG)"

definition os_path_isdir :: "filesystem \<Rightarrow> path \<Rightarrow> bool" where
  "os_path_isdir fs p =
     (case os_stat fs p of None \<Rightarrow> False | Some st \<Rightarrow> st_mode st = S_IFDIR)"

text \<open>\<^verbatim>\<open>os.path.join(a, b)\<close> of posixpath, for two components.\<close>

definition os_path_join :: "path \<Rightarrow> string \<Rightarrow> path" where
  "os_path_join a b =
     (if take 1 b = ''/'' then b
      else if a = [] \<or> last a = CHR ''/'' then a @ b
      else a @ ''/'' @ b)"

text \<open>\<^verbatim>\<open>open(p, 'rb')\<close> followed by reading the file to its end.\<close>

definition open_rb :: "filesystem \<Rightarrow> path \<Rightarrow> exn + string" where
  "open_rb fs p =
     (case resolve fs p of
        Some (RegularFile bytes True) \<Rightarrow> Inr bytes
      | _ \<Rightarrow> Inl (OSError p))"

subsection \<open>Tags\<close>

datatype color = NONE | GRAY | GREEN | PURPLE | BLUE | YELLOW | RED | ORANGE

datatype tag = Tag string color

subsection \<open>What a run does, in order\<close>

text \<open>
  Every call that reaches outside the process is an event of the run's trace: the
  reads of the file system as well as the prints and the tagging calls.
\<close>

datatype event =
    Print_help
  | Print string
  | Tags_remove_all path
  | Tags_add tag path
  | Call_isfile path
  | Call_isdir path
  | Call_stat path
  | Walk_yield path
  | Call_cmp path path
  | Call_open path

fun is_effect :: "event \<Rightarrow> bool" where
  "is_effect Print_help = True"
| "is_effect (Print s) = True"
| "is_effect (Tags_remove_all p) = True"
| "is_effect (Tags_add t p) = True"
| "is_effect e = False"

fun is_tagging :: "event \<Rightarrow> bool" where
  "is_tagging (Tags_remove_all p) = True"
| "is_tagging (Tags_add t p) = True"
| "is_tagging e = False"

fun is_tags_add :: "event \<Rightarrow> bool" where
  "is_tags_add (Tags_add t p) = True"
| "is_tags_add e = False"

text \<open>The reads of the scan: a search directory tested, a directory listed, a candidate stat'ed.\<close>

fun is_probe :: "event \<Rightarrow> bool" where
  "is_probe (Call_isdir p) = True"
| "is_probe (Walk_yield p) = True"
| "is_probe (Call_stat p) = True"
| "is_probe e = False"

text \<open>
  Modelled from the spec: the OS file tagging service (the \<^verbatim>\<open>macos_tags\<close> package, which
  is not under src/).  \<^verbatim>\<open>remove_all(file)\<close> clears the tags of a file and
  \<^verbatim>\<open>add(tag, file)\<close> attaches a tag to it, once.  Neither fails.
\<close>

type_synonym tag_store = "path \<Rightarrow> tag list"

fun apply_event :: "event \<Rightarrow> tag_store \<Rightarrow> tag_store" where
  "apply_event (Tags_remove_all p) store = store(p := [])"
| "apply_event (Tags_add t p) store =
     store(p := (if t \<in> set (store p) then store p else store p @ [t]))"
| "apply_event e store = store"

definition tags_after :: "event list \<Rightarrow> tag_store \<Rightarrow> tag_store" where
  "tags_after trace store = fold apply_event trace store"

section \<open>The program\<close>

text \<open>
  \<^verbatim>\<open>filecmp.cmp(f1, f2, shallow=False)\<close>: both files are stat'ed; two files that are not
  both regular, or of different sizes, are unequal without being opened; otherwise both
  are opened (\<open>f1\<close> first) and read to the end.  The events returned are the opens.
\<close>

definition filecmp_cmp :: "filesystem \<Rightarrow> path \<Rightarrow> path \<Rightarrow> event list \<times> (exn + bool)" where
  "filecmp_cmp fs f1 f2 =
     (case os_stat fs f1 of
        None \<Rightarrow> ([], Inl (OSError f1))
      | Some s1 \<Rightarrow>
         (case os_stat fs f2 of
            None \<Rightarrow> ([], Inl (OSError f2))
          | Some s2 \<Rightarrow>
             if st_mode s1 \<noteq> S_IFREG \<or> st_mode s2 \<noteq> S_IFREG then ([], Inr False)
             else if st_size s1 \<noteq> st_size s2 then ([], Inr False)
             else
               (case open_rb fs f1 of
                  Inl e \<Rightarrow> ([Call_open f1], Inl e)
                | Inr b1 \<Rightarrow>
                   (case open_rb fs f2 of
                      Inl e \<Rightarrow> ([Call_open f1, Call_open f2], Inl e)
                    | Inr b2 \<Rightarrow> ([Call_open f1, Call_open f2], Inr (b1 = b2))))))"

text \<open>
  The parsed command line, \<^verbatim>\<open>args = self.parser.parse_args()\<close>.  The option
  \<^verbatim>\<open>--directory\<close> has \<^verbatim>\<open>action="append"\<close> and no default (lines 52-59): argparse
  stores the list of its values, and None when the option never occurs.
\<close>

record namespace =
  directory :: "string list option"
  reference_file_arg :: string
  verbose_arg :: bool

text \<open>The fields of \<^verbatim>\<open>Check4Duplicates\<close> that the run reads or writes.\<close>

record check4duplicates =
  directories :: "string list option"
  reference_file :: string
  ref_size :: nat
  verbose :: bool

text \<open>\<^verbatim>\<open>__init__\<close> followed by \<^verbatim>\<open>parse_args\<close> (lines 30-38 and 77-82).\<close>

definition parse_args :: "namespace \<Rightarrow> check4duplicates" where
  "parse_args args =
     \<lparr>directories = directory args,
      reference_file = reference_file_arg args,
      ref_size = 0,
      verbose = verbose_arg args\<rparr>"

text \<open>
  \<^verbatim>\<open>validate_args\<close> (lines 84-95).  \<^verbatim>\<open>len(None)\<close> raises TypeError.  The result is
  the trace and either the end of the process or the object with \<open>ref_size\<close> set.
\<close>

definition validate_args ::
  "filesystem \<Rightarrow> check4duplicates \<Rightarrow> event list \<times> (outcome + check4duplicates)" where
  "validate_args fs self =
     (case directories self of
        None \<Rightarrow> ([], Inl (Uncaught TypeError))
      | Some ds \<Rightarrow>
         if length ds = 0 then ([Print_help], Inl (Exit 2))
         else if \<not> os_path_isfile fs (reference_file self) then
           ([Call_isfile (reference_file self),
             Print (''Reference file '' @ reference_file self @ '' does not exist'')],
            Inl (Exit 2))
         else
           (case os_stat fs (reference_file self) of
              None \<Rightarrow>
                ([Call_isfile (reference_file self), Call_stat (reference_file self)],
                 Inl (Uncaught (OSError (reference_file self))))
            | Some st \<Rightarrow>
                (let self' = self\<lparr>ref_size := st_size st\<rparr> in
                 if ref_size self' = 0 then
                   ([Call_isfile (reference_file self), Call_stat (reference_file self),
                     Print (''Reference file '' @ reference_file self @ '' is empty'')],
                    Inl (Exit 2))
                 else
                   ([Call_isfile (reference_file self), Call_stat (reference_file self)],
                    Inr self'))))"

text \<open>
  Sequencing inside the loops of \<^verbatim>\<open>run\<close>: a step gives its events and, when it ends
  the process, the outcome; the rest runs only after a step that does not.
\<close>

fun and_then ::
  "event list \<times> outcome option \<Rightarrow> event list \<times> outcome option \<Rightarrow> event list \<times> outcome option"
where
  "and_then (evs, Some out) rest = (evs, Some out)"
| "and_then (evs, None) rest = (evs @ fst rest, snd rest)"

text \<open>The body of the innermost loop (lines 117-125), for one joined path.\<close>

definition check_file :: "filesystem \<Rightarrow> check4duplicates \<Rightarrow> path \<Rightarrow> event list \<times> outcome option" where
  "check_file fs self file =
     (case os_stat fs file of
        None \<Rightarrow> ([Call_stat file], Some (Uncaught (OSError file)))
      | Some st \<Rightarrow>
         if st_size st = ref_size self then
           (case filecmp_cmp fs (reference_file self) file of
              (opens, Inl e) \<Rightarrow>
                (Call_stat file # Call_cmp (reference_file self) file # opens,
                 Some (Uncaught e))
            | (opens, Inr True) \<Rightarrow>
                (Call_stat file # Call_cmp (reference_file self) file # opens
                   @ [Tags_add (Tag ''Duplicate'' RED) (reference_file self)]
                   @ (if verbose self
                      then [Print (''File '' @ file @ '' is identical to '' @ reference_file self)]
                      else []),
                 Some (Exit 1))
            | (opens, Inr False) \<Rightarrow>
                (Call_stat file # Call_cmp (reference_file self) file # opens, None))
         else ([Call_stat file], None))"

text \<open>\<^verbatim>\<open>for f in files\<close> (line 116).\<close>

fun run_files ::
  "filesystem \<Rightarrow> check4duplicates \<Rightarrow> path \<Rightarrow> string list \<Rightarrow> event list \<times> outcome option"
where
  "run_files fs self root [] = ([], None)"
| "run_files fs self root (f # files) =
     and_then (check_file fs self (os_path_join root f)) (run_files fs self root files)"

text \<open>\<^verbatim>\<open>for root, _, files in os.walk(directory)\<close> (line 115).\<close>

fun run_walk ::
  "filesystem \<Rightarrow> check4duplicates \<Rightarrow> (path \<times> string list \<times> string list) list
     \<Rightarrow> event list \<times> outcome option"
where
  "run_walk fs self [] = ([], None)"
| "run_walk fs self ((root, dirs, files) # triples) =
     and_then ([Walk_yield root], None)
       (and_then (run_files fs self root files) (run_walk fs self triples))"

text \<open>\<^verbatim>\<open>for directory in self.directories\<close> (lines 111-114).\<close>

fun run_directories ::
  "filesystem \<Rightarrow> check4duplicates \<Rightarrow> string list \<Rightarrow> event list \<times> outcome option"
where
  "run_directories fs self [] = ([], None)"
| "run_directories fs self (d # ds) =
     (if \<not> os_path_isdir fs d then
        ([Call_isdir d, Print (''Directory '' @ d @ '' does not exist'')], Some (Exit 1))
      else
        and_then ([Call_isdir d], None)
          (and_then (run_walk fs self (os_walk fs d)) (run_directories fs self ds)))"

text \<open>
  \<^verbatim>\<open>run\<close> (lines 104-129): the trace of the whole run and how the process ends.
  Iterating over None raises TypeError.
\<close>

definition run :: "filesystem \<Rightarrow> namespace \<Rightarrow> event list \<times> outcome" where
  "run fs args =
     (let self = parse_args args in
      case validate_args fs self of
        (evs, Inl out) \<Rightarrow> (evs, out)
      | (evs, Inr self1) \<Rightarrow>
         (case os_stat fs (reference_file self1) of
            None \<Rightarrow>
              (evs @ [Tags_remove_all (reference_file self1), Call_stat (reference_file self1)],
               Uncaught (OSError (reference_file self1)))
          | Some st \<Rightarrow>
             (let self2 = self1\<lparr>ref_size := st_size st\<rparr>;
                  pre = evs @ [Tags_remove_all (reference_file self2),
                               Call_stat (reference_file self2)]
              in case directories self2 of
                   None \<Rightarrow> (pre, Uncaught TypeError)
                 | Some ds \<Rightarrow>
                    (case run_directories fs self2 ds of
                       (scan, Some out) \<Rightarrow> (pre @ scan, out)
                     | (scan, None) \<Rightarrow>
                        (pre @ scan @ [Tags_add (Tag ''Unique'' GREEN) (reference_file self2)],
                         Exit 0)))))"

section \<open>Traversal order\<close>

text \<open>
  What the three nested loops of \<^verbatim>\<open>run\<close> visit, flattened in the order they visit
  it: a search directory (tested with \<^verbatim>\<open>os.path.isdir\<close>), a directory yielded by
  \<^verbatim>\<open>os.walk\<close>, a candidate file (\<^verbatim>\<open>os.path.join(root, f)\<close>).
\<close>

datatype visit = Root path | Listing path | Candidate path

fun walk_visits :: "(path \<times> string list \<times> string list) list \<Rightarrow> visit list" where
  "walk_visits [] = []"
| "walk_visits ((root, dirs, files) # triples) =
     Listing root # map (\<lambda>f. Candidate (os_path_join root f)) files @ walk_visits triples"

fun traversal :: "filesystem \<Rightarrow> string list \<Rightarrow> visit list" where
  "traversal fs [] = []"
| "traversal fs (d # ds) = Root d # walk_visits (os_walk fs d) @ traversal fs ds"

text \<open>The read that each visit starts with.\<close>

fun probe :: "visit \<Rightarrow> event" where
  "probe (Root d) = Call_isdir d"
| "probe (Listing root) = Walk_yield root"
| "probe (Candidate c) = Call_stat c"

text \<open>
  A visit that lets the scan go on, for reference bytes \<open>rb\<close>: a search directory that
  is a directory; a candidate that can be stat'ed and, when it is a regular file of the
  reference's size, can be read and differs from it.
\<close>

fun passes :: "filesystem \<Rightarrow> string \<Rightarrow> visit \<Rightarrow> bool" where
  "passes fs rb (Root d) = os_path_isdir fs d"
| "passes fs rb (Listing root) = True"
| "passes fs rb (Candidate c) =
     (case resolve fs c of
        None \<Rightarrow> False
      | Some (RegularFile cb cr) \<Rightarrow> length cb = length rb \<longrightarrow> cr \<and> cb \<noteq> rb
      | Some other \<Rightarrow> True)"

text \<open>One visit of the scan, and the scan as one loop over the visits.\<close>

fun visit_step :: "filesystem \<Rightarrow> check4duplicates \<Rightarrow> visit \<Rightarrow> event list \<times> outcome option" where
  "visit_step fs self (Root d) =
     (if \<not> os_path_isdir fs d then
        ([Call_isdir d, Print (''Directory '' @ d @ '' does not exist'')], Some (Exit 1))
      else ([Call_isdir d], None))"
| "visit_step fs self (Listing root) = ([Walk_yield root], None)"
| "visit_step fs self (Candidate c) = check_file fs self c"

fun run_visits :: "filesystem \<Rightarrow> check4duplicates \<Rightarrow> visit list \<Rightarrow> event list \<times> outcome option" where
  "run_visits fs self [] = ([], None)"
| "run_visits fs self (v # vs) = and_then (visit_step fs self v) (run_visits fs self vs)"

text \<open>
  The object while the scan runs: the parsed arguments, with \<open>ref_size\<close> set by the
  stat of line 109.
\<close>

definition scanning :: "namespace \<Rightarrow> nat \<Rightarrow> check4duplicates" where
  "scanning args n = (parse_args args)\<lparr>ref_size := n\<rparr>"

text \<open>
  The three ways the side effects of a scan can look: none (the scan went through, or
  an exception ended it), the message of a missing directory with status 1, or the
  duplicate tag, the message when verbose, and status 1.
\<close>

definition scan_shape :: "check4duplicates \<Rightarrow> event list \<times> outcome option \<Rightarrow> bool" where
  "scan_shape self res =
     ((filter is_effect (fst res) = [] \<and> (snd res = None \<or> (\<exists>x. snd res = Some (Uncaught x))))
      \<or> (\<exists>d. filter is_effect (fst res) = [Print (''Directory '' @ d @ '' does not exist'')]
             \<and> snd res = Some (Exit 1))
      \<or> (\<exists>c. filter is_effect (fst res) =
               Tags_add (Tag ''Duplicate'' RED) (reference_file self)
               # (if verbose self
                  then [Print (''File '' @ c @ '' is identical to '' @ reference_file self)]
                  else [])
             \<and> snd res = Some (Exit 1)))"

section \<open>Example file systems\<close>

text \<open>
  The reference file \<^verbatim>\<open>a.txt\<close> holds "hello"; \<^verbatim>\<open>dirA\<close> holds a shorter file, a file
  of the same size and other bytes, and two copies.
\<close>

definition fs_hello :: filesystem where
  "fs_hello =
     \<lparr>resolve =
        [''a.txt'' \<mapsto> RegularFile ''hello'' True,
         ''dirA'' \<mapsto> DirectoryNode 96,
         ''dirA/w.txt'' \<mapsto> RegularFile ''hi'' True,
         ''dirA/y.txt'' \<mapsto> RegularFile ''world'' True,
         ''dirA/x.txt'' \<mapsto> RegularFile ''hello'' True,
         ''dirA/z.txt'' \<mapsto> RegularFile ''hello'' True],
      os_walk = (\<lambda>d. if d = ''dirA''
                      then [(''dirA'', [], [''w.txt'', ''y.txt'', ''x.txt'', ''z.txt''])]
                      else [])\<rparr>"

text \<open>
  The reference file holds "hello"; \<^verbatim>\<open>dirA\<close> holds a file of the same size and other
  bytes, and a subdirectory with a shorter file and a named pipe.  There is no
  \<^verbatim>\<open>dirB\<close>.
\<close>

definition fs_world :: filesystem where
  "fs_world =
     \<lparr>resolve =
        [''a.txt'' \<mapsto> RegularFile ''hello'' True,
         ''dirA'' \<mapsto> DirectoryNode 96,
         ''dirA/y.txt'' \<mapsto> RegularFile ''world'' True,
         ''dirA/sub'' \<mapsto> DirectoryNode 64,
         ''dirA/sub/w.txt'' \<mapsto> RegularFile ''hi'' True,
         ''dirA/sub/pipe'' \<mapsto> SpecialNode 5],
      os_walk = (\<lambda>d. if d = ''dirA''
                      then [(''dirA'', [''sub''], [''y.txt'']),
                            (''dirA/sub'', [], [''w.txt'', ''pipe''])]
                      else [])\<rparr>"

text \<open>
  The first entry of \<^verbatim>\<open>dirA\<close> is a symbolic link whose target is gone: the walk lists
  it among the files and it cannot be stat'ed.  A copy of the reference file follows it.
\<close>

definition fs_link :: filesystem where
  "fs_link =
     \<lparr>resolve =
        [''a.txt'' \<mapsto> RegularFile ''hello'' True,
         ''dirA'' \<mapsto> DirectoryNode 96,
         ''dirA/x.txt'' \<mapsto> RegularFile ''hello'' True],
      os_walk = (\<lambda>d. if d = ''dirA''
                      then [(''dirA'', [], [''gone'', ''x.txt''])]
                      else [])\<rparr>"


text \<open>The reference file \<^verbatim>\<open>a.txt\<close> is empty; the directory \<^verbatim>\<open>dirA\<close> has size 0.\<close>

definition fs_empty :: filesystem where
  "fs_empty =
     \<lparr>resolve =
        [''a.txt'' \<mapsto> RegularFile [] True,
         ''dirA'' \<mapsto> DirectoryNode 0,
         ''dirA/x.txt'' \<mapsto> RegularFile [] True],
      os_walk = (\<lambda>d. if d = ''dirA'' then [(''dirA'', [], [''x.txt''])] else [])\<rparr>"

section \<open>The nested loops as one loop over the traversal\<close>

lemma and_then_assoc: "and_then (and_then a b) c = and_then a (and_then b c)"
proof (cases a)
  case (Pair evs r)
  show ?thesis
  proof (cases r)
    case None
    show ?thesis
    proof (cases b)
      case (Pair evs' r')
      with None \<open>a = (evs, r)\<close> show ?thesis by (cases r') simp_all
    qed
  next
    case (Some out)
    with Pair show ?thesis by simp
  qed
qed

lemma and_then_None [simp]: "and_then ([], None) r = r"
  by (cases r) simp

lemma run_visits_append:
  "run_visits fs self (xs @ ys) = and_then (run_visits fs self xs) (run_visits fs self ys)"
  by (induction xs) (simp_all add: and_then_assoc)

lemma run_files_visits:
  "run_files fs self root files =
     run_visits fs self (map (\<lambda>f. Candidate (os_path_join root f)) files)"
  by (induction files) simp_all

lemma run_walk_visits: "run_walk fs self triples = run_visits fs self (walk_visits triples)"
  by (induction triples rule: walk_visits.induct)
     (simp_all add: run_files_visits run_visits_append and_then_assoc)

lemma run_directories_visits:
  "run_directories fs self ds = run_visits fs self (traversal fs ds)"
  by (induction ds) (simp_all add: run_walk_visits run_visits_append and_then_assoc)

section \<open>Tags after a trace\<close>

lemma tags_after_append: "tags_after (xs @ ys) store = tags_after ys (tags_after xs store)"
  by (simp add: tags_after_def)

lemma apply_event_no_tagging: "\<not> is_tagging e \<Longrightarrow> apply_event e store = store"
  by (cases e) simp_all

lemma tags_after_filter: "tags_after evs store = tags_after (filter is_tagging evs) store"
  by (induction evs arbitrary: store) (simp_all add: tags_after_def apply_event_no_tagging)

lemma filter_tagging_effect: "filter is_tagging (filter is_effect evs) = filter is_tagging evs"
proof (induction evs)
  case Nil
  show ?case by simp
next
  case (Cons e evs)
  then show ?case by (cases e) simp_all
qed

lemma tags_after_effects: "tags_after evs store = tags_after (filter is_effect evs) store"
proof -
  have "tags_after (filter is_effect evs) store =
          tags_after (filter is_tagging (filter is_effect evs)) store"
    by (rule tags_after_filter)
  also have "\<dots> = tags_after (filter is_tagging evs) store"
    by (simp only: filter_tagging_effect)
  also have "\<dots> = tags_after evs store"
    by (rule tags_after_filter [symmetric])
  finally show ?thesis by simp
qed

section \<open>One candidate, one visit, a run of visits\<close>

lemma check_file_unstatable:
  "resolve fs c = None \<Longrightarrow> check_file fs self c = ([Call_stat c], Some (Uncaught (OSError c)))"
  by (simp add: check_file_def os_stat_def)


lemma check_file_passes:
  assumes "resolve fs (reference_file self) = Some (RegularFile rb True)"
    and "ref_size self = length rb"
    and "passes fs rb (Candidate c)"
  shows "\<exists>evs. check_file fs self c = (evs, None)
           \<and> filter is_probe evs = [Call_stat c] \<and> filter is_effect evs = []"
proof (cases "resolve fs c")
  case None
  with assms(3) show ?thesis by simp
next
  case (Some n)
  show ?thesis
  proof (cases n)
    case (RegularFile cb cr)
    with Some assms show ?thesis
      by (cases cr) (auto simp: check_file_def os_stat_def filecmp_cmp_def open_rb_def)
  next
    case (DirectoryNode k)
    with Some assms show ?thesis
      by (simp add: check_file_def os_stat_def filecmp_cmp_def)
  next
    case (SpecialNode k)
    with Some assms show ?thesis
      by (simp add: check_file_def os_stat_def filecmp_cmp_def)
  qed
qed

lemma visit_step_passes:
  assumes "resolve fs (reference_file self) = Some (RegularFile rb True)"
    and "ref_size self = length rb"
    and "passes fs rb v"
  shows "\<exists>evs. visit_step fs self v = (evs, None)
           \<and> filter is_probe evs = [probe v] \<and> filter is_effect evs = []"
proof (cases v)
  case (Root d)
  with assms(3) show ?thesis by simp
next
  case (Listing root)
  then show ?thesis by simp
next
  case (Candidate c)
  with check_file_passes [OF assms(1,2)] assms(3) show ?thesis by simp
qed

lemma run_visits_passes:
  assumes "resolve fs (reference_file self) = Some (RegularFile rb True)"
    and "ref_size self = length rb"
    and "\<forall>v\<in>set vs. passes fs rb v"
  shows "\<exists>evs. run_visits fs self vs = (evs, None)
           \<and> filter is_probe evs = map probe vs \<and> filter is_effect evs = []"
  using assms(3)
proof (induction vs)
  case Nil
  show ?case by simp
next
  case (Cons v vs)
  from Cons.prems have "passes fs rb v" by simp
  from visit_step_passes [OF assms(1,2) this] obtain e1 where
    e1: "visit_step fs self v = (e1, None)" "filter is_probe e1 = [probe v]"
        "filter is_effect e1 = []" by blast
  from Cons obtain e2 where
    e2: "run_visits fs self vs = (e2, None)" "filter is_probe e2 = map probe vs"
        "filter is_effect e2 = []" by auto
  from e1 e2 show ?case by simp
qed

text \<open>The scan up to and including the first visit that does not pass.\<close>

lemma run_visits_stop:
  assumes "resolve fs (reference_file self) = Some (RegularFile rb True)"
    and "ref_size self = length rb"
    and "\<forall>v\<in>set pre. passes fs rb v"
    and "visit_step fs self v = (last_evs, Some out)"
  shows "\<exists>evs. run_visits fs self (pre @ v # post) = (evs @ last_evs, Some out)
           \<and> filter is_probe evs = map probe pre \<and> filter is_effect evs = []"
proof -
  from run_visits_passes [OF assms(1,2,3)] obtain evs where
    evs: "run_visits fs self pre = (evs, None)" "filter is_probe evs = map probe pre"
         "filter is_effect evs = []" by blast
  with assms(4) have "run_visits fs self (pre @ v # post) = (evs @ last_evs, Some out)"
    by (simp add: run_visits_append)
  with evs show ?thesis by blast
qed

section \<open>A run that passes validation\<close>

lemma scanning_simps [simp]:
  "reference_file (scanning args n) = reference_file_arg args"
  "ref_size (scanning args n) = n"
  "verbose (scanning args n) = verbose_arg args"
  "directories (scanning args n) = directory args"
  by (simp_all add: scanning_def parse_args_def)

lemma run_validated:
  assumes "directory args = Some ds" and "ds \<noteq> []"
    and "resolve fs (reference_file_arg args) = Some (RegularFile rb r)" and "rb \<noteq> []"
  shows "run fs args =
    (case run_visits fs (scanning args (length rb)) (traversal fs ds) of
       (scan, Some out) \<Rightarrow>
         ([Call_isfile (reference_file_arg args), Call_stat (reference_file_arg args),
           Tags_remove_all (reference_file_arg args), Call_stat (reference_file_arg args)]
          @ scan, out)
     | (scan, None) \<Rightarrow>
         ([Call_isfile (reference_file_arg args), Call_stat (reference_file_arg args),
           Tags_remove_all (reference_file_arg args), Call_stat (reference_file_arg args)]
          @ scan @ [Tags_add (Tag ''Unique'' GREEN) (reference_file_arg args)], Exit 0))"
proof -
  obtain scan res where sr:
    "run_visits fs (scanning args (length rb)) (traversal fs ds) = (scan, res)"
    by (cases "run_visits fs (scanning args (length rb)) (traversal fs ds)") blast
  then have "run_directories fs
      \<lparr>directories = Some ds, reference_file = reference_file_arg args,
         ref_size = length rb, verbose = verbose_arg args\<rparr> ds = (scan, res)"
    using assms(1) by (simp add: run_directories_visits scanning_def parse_args_def)
  with assms sr show ?thesis
    by (cases res)
       (simp_all add: run_def validate_args_def parse_args_def os_path_isfile_def os_stat_def)
qed

lemma traversal_append: "traversal fs (xs @ ys) = traversal fs xs @ traversal fs ys"
  by (induction xs) simp_all

section \<open>The side effects of any scan\<close>

lemma filecmp_cmp_no_effect: "filter is_effect (fst (filecmp_cmp fs f1 f2)) = []"
  by (simp add: filecmp_cmp_def split: option.splits sum.splits)

lemma check_file_shape: "scan_shape self (check_file fs self c)"
proof (cases "filecmp_cmp fs (reference_file self) c")
  case (Pair opens res)
  with filecmp_cmp_no_effect [of fs "reference_file self" c]
  have "filter is_effect opens = []" by simp
  with Pair show ?thesis
    by (cases res)
       (auto simp: scan_shape_def check_file_def split: option.splits bool.splits)
qed

lemma visit_step_shape: "scan_shape self (visit_step fs self v)"
proof (cases v)
  case (Candidate c)
  then show ?thesis by (simp add: check_file_shape)
qed (simp_all add: scan_shape_def)

lemma and_then_shape:
  assumes "scan_shape self a" and "scan_shape self b"
  shows "scan_shape self (and_then a b)"
proof (cases a)
  case (Pair evs r)
  show ?thesis
  proof (cases r)
    case None
    with Pair assms(1) have "filter is_effect evs = []" by (auto simp: scan_shape_def)
    with Pair None assms(2) show ?thesis by (simp add: scan_shape_def)
  next
    case (Some out)
    with Pair assms(1) show ?thesis by simp
  qed
qed

lemma run_visits_shape: "scan_shape self (run_visits fs self vs)"
  by (induction vs) (simp_all add: and_then_shape visit_step_shape, simp add: scan_shape_def)

section \<open>The scan stops at the first copy\<close>



section \<open>How a run can end in validation\<close>

lemma run_cases [case_names no_option no_dirs no_file empty valid]:
  obtains
    "directory args = None" and "run fs args = ([], Uncaught TypeError)"
  | "directory args = Some []" and "run fs args = ([Print_help], Exit 2)"
  | ds where "directory args = Some ds" and "ds \<noteq> []"
      and "\<forall>b r. resolve fs (reference_file_arg args) \<noteq> Some (RegularFile b r)"
      and "run fs args =
        ([Call_isfile (reference_file_arg args),
          Print (''Reference file '' @ reference_file_arg args @ '' does not exist'')], Exit 2)"
  | ds r where "directory args = Some ds" and "ds \<noteq> []"
      and "resolve fs (reference_file_arg args) = Some (RegularFile [] r)"
      and "run fs args =
        ([Call_isfile (reference_file_arg args), Call_stat (reference_file_arg args),
          Print (''Reference file '' @ reference_file_arg args @ '' is empty'')], Exit 2)"
  | ds rb r where "directory args = Some ds" and "ds \<noteq> []"
      and "resolve fs (reference_file_arg args) = Some (RegularFile rb r)" and "rb \<noteq> []"
proof (cases "directory args")
  case None
  then have "run fs args = ([], Uncaught TypeError)"
    by (simp add: run_def validate_args_def parse_args_def)
  with None that(1) show ?thesis by blast
next
  case (Some ds)
  show ?thesis
  proof (cases "ds = []")
    case True
    with Some have "run fs args = ([Print_help], Exit 2)"
      by (simp add: run_def validate_args_def parse_args_def)
    with Some True that(2) show ?thesis by blast
  next
    case ne: False
    show ?thesis
    proof (cases "\<exists>b r. resolve fs (reference_file_arg args) = Some (RegularFile b r)")
      case False
      then have "\<not> os_path_isfile fs (reference_file_arg args)"
      proof (cases "resolve fs (reference_file_arg args)")
        case None
        then show ?thesis by (simp add: os_path_isfile_def os_stat_def)
      next
        case (Some n)
        with False show ?thesis by (cases n) (simp_all add: os_path_isfile_def os_stat_def)
      qed
      with Some ne have "run fs args =
        ([Call_isfile (reference_file_arg args),
          Print (''Reference file '' @ reference_file_arg args @ '' does not exist'')], Exit 2)"
        by (simp add: run_def validate_args_def parse_args_def)
      with Some ne False that(3) show ?thesis by blast
    next
      case True
      then obtain b r where br: "resolve fs (reference_file_arg args) = Some (RegularFile b r)"
        by blast
      show ?thesis
      proof (cases "b = []")
        case True
        with Some ne br have "run fs args =
          ([Call_isfile (reference_file_arg args), Call_stat (reference_file_arg args),
            Print (''Reference file '' @ reference_file_arg args @ '' is empty'')], Exit 2)"
          by (simp add: run_def validate_args_def parse_args_def os_path_isfile_def os_stat_def)
        with Some ne br True that(4) show ?thesis by blast
      next
        case False
        with Some ne br that(5) show ?thesis by blast
      qed
    qed
  qed
qed

section \<open>What a scan compares\<close>

lemma and_then_events:
  "e \<in> set (fst (and_then a b)) \<Longrightarrow> e \<in> set (fst a) \<or> e \<in> set (fst b)"
proof (cases a)
  case (Pair evs r)
  assume "e \<in> set (fst (and_then a b))"
  with Pair show ?thesis by (cases r) auto
qed

lemma filecmp_cmp_events:
  "e \<in> set (fst (filecmp_cmp fs f1 f2)) \<Longrightarrow> e = Call_open f1 \<or> e = Call_open f2"
  by (auto simp: filecmp_cmp_def split: option.splits if_splits sum.splits)

lemma check_file_compared:
  assumes "os_stat fs (reference_file self) = Some sr" and "ref_size self = st_size sr"
    and "e \<in> set (fst (check_file fs self c))"
    and "e = Call_cmp f x \<or> e = Call_open x"
  shows "\<exists>sx. os_stat fs x = Some sx \<and> st_size sx = st_size sr"
proof (cases "os_stat fs c")
  case None
  with assms(3,4) show ?thesis by (auto simp: check_file_def)
next
  case (Some st)
  show ?thesis
  proof (cases "st_size st = ref_size self")
    case False
    with Some assms(3,4) show ?thesis by (auto simp: check_file_def)
  next
    case True
    obtain opens res where cmp: "filecmp_cmp fs (reference_file self) c = (opens, res)"
      by (cases "filecmp_cmp fs (reference_file self) c") blast
    have "e \<in> {Call_stat c, Call_cmp (reference_file self) c} \<union> set opens
            \<or> (\<exists>t p. e = Tags_add t p) \<or> (\<exists>s. e = Print s)"
      using assms(3) Some True cmp
      by (cases res) (auto simp: check_file_def split: bool.splits if_splits)
    with assms(4) have "e = Call_cmp (reference_file self) c \<or> e \<in> set opens" by auto
    with filecmp_cmp_events [of e fs "reference_file self" c] cmp assms(4)
    have "x = c \<or> x = reference_file self" by auto
    with Some True assms(1,2) show ?thesis by auto
  qed
qed

lemma run_visits_compared:
  assumes "os_stat fs (reference_file self) = Some sr" and "ref_size self = st_size sr"
    and "e \<in> set (fst (run_visits fs self vs))"
    and "e = Call_cmp f x \<or> e = Call_open x"
  shows "\<exists>sx. os_stat fs x = Some sx \<and> st_size sx = st_size sr"
  using assms(3)
proof (induction vs)
  case Nil
  then show ?case by simp
next
  case (Cons v vs)
  from Cons.prems and_then_events
  have "e \<in> set (fst (visit_step fs self v)) \<or> e \<in> set (fst (run_visits fs self vs))"
    by simp
  then show ?case
  proof
    assume here: "e \<in> set (fst (visit_step fs self v))"
    show ?thesis
    proof (cases v)
      case (Candidate c)
      with here check_file_compared [OF assms(1,2) _ assms(4)] show ?thesis by simp
    next
      case (Root d)
      with here assms(4) show ?thesis by (auto split: if_splits)
    next
      case (Listing root)
      with here assms(4) show ?thesis by auto
    qed
  next
    assume "e \<in> set (fst (run_visits fs self vs))"
    then show ?thesis by (rule Cons.IH)
  qed
qed

lemma effect_in_filter: "e \<in> set evs \<Longrightarrow> is_effect e \<Longrightarrow> e \<in> set (filter is_effect evs)"
  by simp

section \<open>The claims\<close>



text \<open>
  C2.  When every supplied directory is a directory and the walk goes through, every
  candidate being stat'ed and none of them a copy of the reference file, the run ends by
  tagging the reference file "Unique" (green) and exits with status 0.
\<close>

theorem no_match_tags_unique:
  assumes "directory args = Some ds" and "ds \<noteq> []"
    and "resolve fs (reference_file_arg args) = Some (RegularFile rb True)" and "rb \<noteq> []"
    and "\<forall>v\<in>set (traversal fs ds). passes fs rb v"
  shows "\<exists>scan.
    run fs args =
      ([Call_isfile (reference_file_arg args), Call_stat (reference_file_arg args),
        Tags_remove_all (reference_file_arg args), Call_stat (reference_file_arg args)]
       @ scan @ [Tags_add (Tag ''Unique'' GREEN) (reference_file_arg args)], Exit 0)
    \<and> filter is_probe scan = map probe (traversal fs ds)
    \<and> filter is_effect scan = []
    \<and> tags_after (fst (run fs args)) store (reference_file_arg args) = [Tag ''Unique'' GREEN]"
proof -
  let ?self = "scanning args (length rb)"
  let ?ref = "reference_file_arg args"
  let ?pre = "[Call_isfile ?ref, Call_stat ?ref, Tags_remove_all ?ref, Call_stat ?ref]"
  let ?add = "[Tags_add (Tag ''Unique'' GREEN) ?ref]"
  have ref: "resolve fs (reference_file ?self) = Some (RegularFile rb True)"
    using assms(3) by simp
  have sz: "ref_size ?self = length rb" by simp
  from run_visits_passes [OF ref sz assms(5)] obtain evs where
    evs: "run_visits fs ?self (traversal fs ds) = (evs, None)"
         "filter is_probe evs = map probe (traversal fs ds)" "filter is_effect evs = []"
    by blast
  have run: "run fs args = (?pre @ evs @ ?add, Exit 0)"
    using run_validated [OF assms(1,2,3,4)] evs(1) by simp
  have "tags_after (fst (run fs args)) store ?ref =
          tags_after (filter is_effect (?pre @ evs @ ?add)) store ?ref"
    unfolding run fst_conv by (rule arg_cong [OF tags_after_effects])
  also have "\<dots> = [Tag ''Unique'' GREEN]"
    unfolding filter_append by (simp add: tags_after_def evs(3))
  finally have "tags_after (fst (run fs args)) store ?ref = [Tag ''Unique'' GREEN]" .
  with run evs(2,3) show ?thesis by blast
qed

text \<open>
  On \<open>fs_world\<close> the candidate of the same size differs, the shorter file is only
  stat'ed and the named pipe of size 5 is not a regular file.
\<close>

theorem no_match_tags_unique_witness:
  "\<exists>scan.
     run fs_world \<lparr>directory = Some [''dirA''], reference_file_arg = ''a.txt'', verbose_arg = True\<rparr> =
       ([Call_isfile ''a.txt'', Call_stat ''a.txt'', Tags_remove_all ''a.txt'', Call_stat ''a.txt'']
        @ scan @ [Tags_add (Tag ''Unique'' GREEN) ''a.txt''], Exit 0)
     \<and> filter is_probe scan =
         [Call_isdir ''dirA'', Walk_yield ''dirA'', Call_stat ''dirA/y.txt'',
          Walk_yield ''dirA/sub'', Call_stat ''dirA/sub/w.txt'', Call_stat ''dirA/sub/pipe'']
     \<and> filter is_effect scan = []
     \<and> tags_after
          (fst (run fs_world
             \<lparr>directory = Some [''dirA''], reference_file_arg = ''a.txt'', verbose_arg = True\<rparr>))
          (\<lambda>p. [Tag ''Duplicate'' RED]) ''a.txt'' = [Tag ''Unique'' GREEN]"
proof -
  let ?args = "\<lparr>directory = Some [''dirA''], reference_file_arg = ''a.txt'', verbose_arg = True\<rparr>"
  have h1: "directory ?args = Some [''dirA'']" by simp
  have h2: "[''dirA''] \<noteq> []" by simp
  have h3: "resolve fs_world (reference_file_arg ?args) = Some (RegularFile ''hello'' True)"
    by (simp add: fs_world_def)
  have h4: "''hello'' \<noteq> []" by simp
  have tr: "traversal fs_world [''dirA''] =
      [Root ''dirA'', Listing ''dirA'', Candidate ''dirA/y.txt'',
       Listing ''dirA/sub'', Candidate ''dirA/sub/w.txt'', Candidate ''dirA/sub/pipe'']"
    by (simp add: fs_world_def os_path_join_def)
  have h5: "\<forall>v\<in>set (traversal fs_world [''dirA'']). passes fs_world ''hello'' v"
    unfolding tr by (simp add: fs_world_def os_path_isdir_def os_stat_def)
  from no_match_tags_unique [OF h1 h2 h3 h4 h5, of "\<lambda>p. [Tag ''Duplicate'' RED]"]
  show ?thesis unfolding tr by simp
qed

text \<open>
  C3.  A command line without \<^verbatim>\<open>--directory\<close> is meant to print the help text and
  exit with status 2: the test of line 86 is written for that.  But argparse leaves
  \<^verbatim>\<open>args.directory\<close> at None, and \<^verbatim>\<open>len(None)\<close> raises TypeError: nothing is
  printed and the process ends with the uncaught exception.
\<close>

theorem no_directory_option_raises:
  "run fs_hello \<lparr>directory = None, reference_file_arg = ''a.txt'', verbose_arg = False\<rparr>
     = ([], Uncaught TypeError)"
  by (simp add: run_def validate_args_def parse_args_def)

text \<open>
  C4.  When the scan reaches a supplied directory that is not a directory, the
  directories before it having been walked without a match, it stops: the message naming
  that directory is printed, the later directories are not tested, no tag is added after
  the clearing, and the process exits with status 1.
\<close>

theorem missing_directory_stops_scan:
  assumes "directory args = Some (ds1 @ d # ds2)"
    and "resolve fs (reference_file_arg args) = Some (RegularFile rb True)" and "rb \<noteq> []"
    and "\<forall>v\<in>set (traversal fs ds1). passes fs rb v"
    and "\<not> os_path_isdir fs d"
  shows "\<exists>scan.
    run fs args =
      ([Call_isfile (reference_file_arg args), Call_stat (reference_file_arg args),
        Tags_remove_all (reference_file_arg args), Call_stat (reference_file_arg args)]
       @ scan @ [Call_isdir d, Print (''Directory '' @ d @ '' does not exist'')], Exit 1)
    \<and> filter is_probe scan = map probe (traversal fs ds1)
    \<and> filter is_effect scan = []
    \<and> tags_after (fst (run fs args)) store (reference_file_arg args) = []"
proof -
  let ?self = "scanning args (length rb)"
  let ?ref = "reference_file_arg args"
  let ?pre = "[Call_isfile ?ref, Call_stat ?ref, Tags_remove_all ?ref, Call_stat ?ref]"
  let ?last = "[Call_isdir d, Print (''Directory '' @ d @ '' does not exist'')]"
  have ref: "resolve fs (reference_file ?self) = Some (RegularFile rb True)"
    using assms(2) by simp
  have sz: "ref_size ?self = length rb" by simp
  have ne: "ds1 @ d # ds2 \<noteq> []" by simp
  have tr: "traversal fs (ds1 @ d # ds2) =
      traversal fs ds1 @ Root d # (walk_visits (os_walk fs d) @ traversal fs ds2)"
    by (simp add: traversal_append)
  have step: "visit_step fs ?self (Root d) = (?last, Some (Exit 1))"
    using assms(5) by simp
  from run_visits_stop [OF ref sz assms(4) step] tr obtain evs where
    evs: "run_visits fs ?self (traversal fs (ds1 @ d # ds2)) = (evs @ ?last, Some (Exit 1))"
         "filter is_probe evs = map probe (traversal fs ds1)" "filter is_effect evs = []"
    by metis
  have run: "run fs args = (?pre @ evs @ ?last, Exit 1)"
    using run_validated [OF assms(1) ne assms(2,3)] evs(1) by simp
  have "tags_after (fst (run fs args)) store ?ref =
          tags_after (filter is_effect (?pre @ evs @ ?last)) store ?ref"
    unfolding run fst_conv by (rule arg_cong [OF tags_after_effects])
  also have "\<dots> = []"
    unfolding filter_append by (simp add: tags_after_def evs(3))
  finally have "tags_after (fst (run fs args)) store ?ref = []" .
  with run evs(2,3) show ?thesis by blast
qed

text \<open>
  With \<^verbatim>\<open>-d dirA -d dirB -d dirC\<close> on \<open>fs_world\<close> the scan walks \<^verbatim>\<open>dirA\<close>, stops at
  \<^verbatim>\<open>dirB\<close> and never tests \<^verbatim>\<open>dirC\<close>.
\<close>

theorem missing_directory_stops_scan_witness:
  "\<exists>scan.
     run fs_world
       \<lparr>directory = Some [''dirA'', ''dirB'', ''dirC''], reference_file_arg = ''a.txt'',
        verbose_arg = False\<rparr> =
       ([Call_isfile ''a.txt'', Call_stat ''a.txt'', Tags_remove_all ''a.txt'', Call_stat ''a.txt'']
        @ scan @ [Call_isdir ''dirB'', Print ''Directory dirB does not exist''], Exit 1)
     \<and> filter is_probe scan =
         [Call_isdir ''dirA'', Walk_yield ''dirA'', Call_stat ''dirA/y.txt'',
          Walk_yield ''dirA/sub'', Call_stat ''dirA/sub/w.txt'', Call_stat ''dirA/sub/pipe'']
     \<and> filter is_effect scan = []
     \<and> tags_after
          (fst (run fs_world
             \<lparr>directory = Some [''dirA'', ''dirB'', ''dirC''], reference_file_arg = ''a.txt'',
              verbose_arg = False\<rparr>))
          (\<lambda>p. [Tag ''Unique'' GREEN]) ''a.txt'' = []"
proof -
  let ?args = "\<lparr>directory = Some [''dirA'', ''dirB'', ''dirC''], reference_file_arg = ''a.txt'',
        verbose_arg = False\<rparr>"
  have h1: "directory ?args = Some ([''dirA''] @ ''dirB'' # [''dirC''])" by simp
  have h2: "resolve fs_world (reference_file_arg ?args) = Some (RegularFile ''hello'' True)"
    by (simp add: fs_world_def)
  have h3: "''hello'' \<noteq> []" by simp
  have tr: "traversal fs_world [''dirA''] =
      [Root ''dirA'', Listing ''dirA'', Candidate ''dirA/y.txt'',
       Listing ''dirA/sub'', Candidate ''dirA/sub/w.txt'', Candidate ''dirA/sub/pipe'']"
    by (simp add: fs_world_def os_path_join_def)
  have h4: "\<forall>v\<in>set (traversal fs_world [''dirA'']). passes fs_world ''hello'' v"
    unfolding tr by (simp add: fs_world_def os_path_isdir_def os_stat_def)
  have h5: "\<not> os_path_isdir fs_world ''dirB''"
    by (simp add: fs_world_def os_path_isdir_def os_stat_def)
  from missing_directory_stops_scan [OF h1 h2 h3 h4 h5, of "\<lambda>p. [Tag ''Unique'' GREEN]"]
  show ?thesis unfolding tr by simp
qed

text \<open>
  C5.  In any run, a path that \<^verbatim>\<open>filecmp.cmp\<close> is called on, or that is opened for the
  comparison, has the size of the reference file: a candidate of another size is stat'ed
  and nothing more.
\<close>

theorem only_same_size_compared:
  assumes "e \<in> set (fst (run fs args))"
    and "e = Call_cmp f c \<or> e = Call_open c"
  shows "\<exists>sr sc. os_stat fs (reference_file_arg args) = Some sr
           \<and> os_stat fs c = Some sc \<and> st_size sc = st_size sr"
proof (cases rule: run_cases [where args = args and fs = fs])
  case no_option
  with assms show ?thesis by auto
next
  case no_dirs
  with assms show ?thesis by auto
next
  case (no_file ds)
  with assms show ?thesis by auto
next
  case (empty ds r)
  with assms show ?thesis by auto
next
  case (valid ds rb r)
  let ?self = "scanning args (length rb)"
  let ?sr = "node_stat (RegularFile rb r)"
  have sr: "os_stat fs (reference_file ?self) = Some ?sr"
    using valid(3) by (simp add: os_stat_def)
  have sz: "ref_size ?self = st_size ?sr" by simp
  obtain scan res where scan: "run_visits fs ?self (traversal fs ds) = (scan, res)"
    by (cases "run_visits fs ?self (traversal fs ds)") blast
  have "e \<in> set scan"
    using assms run_validated [OF valid] scan by (cases res) auto
  with scan have "e \<in> set (fst (run_visits fs ?self (traversal fs ds)))" by simp
  from run_visits_compared [OF sr sz this assms(2)] sr show ?thesis by auto
qed

text \<open>
  On \<open>fs_hello\<close> the two-byte file \<^verbatim>\<open>dirA/w.txt\<close> is stat'ed and neither compared nor
  opened; \<^verbatim>\<open>dirA/y.txt\<close>, of the reference's size, is compared.
\<close>

theorem only_same_size_compared_witness:
  "Call_stat ''dirA/w.txt'' \<in> set (fst (run fs_hello
      \<lparr>directory = Some [''dirA''], reference_file_arg = ''a.txt'', verbose_arg = False\<rparr>))
   \<and> Call_cmp ''a.txt'' ''dirA/y.txt'' \<in> set (fst (run fs_hello
      \<lparr>directory = Some [''dirA''], reference_file_arg = ''a.txt'', verbose_arg = False\<rparr>))
   \<and> Call_cmp ''a.txt'' ''dirA/w.txt'' \<notin> set (fst (run fs_hello
      \<lparr>directory = Some [''dirA''], reference_file_arg = ''a.txt'', verbose_arg = False\<rparr>))
   \<and> Call_open ''dirA/w.txt'' \<notin> set (fst (run fs_hello
      \<lparr>directory = Some [''dirA''], reference_file_arg = ''a.txt'', verbose_arg = False\<rparr>))
   \<and> (\<exists>sr sc. os_stat fs_hello ''a.txt'' = Some sr
         \<and> os_stat fs_hello ''dirA/y.txt'' = Some sc \<and> st_size sc = st_size sr)"
proof -
  let ?args = "\<lparr>directory = Some [''dirA''], reference_file_arg = ''a.txt'', verbose_arg = False\<rparr>"
  have run: "run fs_hello ?args =
    ([Call_isfile ''a.txt'', Call_stat ''a.txt'', Tags_remove_all ''a.txt'', Call_stat ''a.txt'',
      Call_isdir ''dirA'', Walk_yield ''dirA'',
      Call_stat ''dirA/w.txt'',
      Call_stat ''dirA/y.txt'', Call_cmp ''a.txt'' ''dirA/y.txt'',
      Call_open ''a.txt'', Call_open ''dirA/y.txt'',
      Call_stat ''dirA/x.txt'', Call_cmp ''a.txt'' ''dirA/x.txt'',
      Call_open ''a.txt'', Call_open ''dirA/x.txt'',
      Tags_add (Tag ''Duplicate'' RED) ''a.txt''], Exit 1)"
    by (simp add: run_def validate_args_def parse_args_def os_path_isfile_def os_path_isdir_def
          os_stat_def fs_hello_def check_file_def filecmp_cmp_def open_rb_def os_path_join_def)
  have h1: "Call_cmp ''a.txt'' ''dirA/y.txt'' \<in> set (fst (run fs_hello ?args))"
    unfolding run by simp
  have h2: "Call_cmp ''a.txt'' ''dirA/y.txt'' = Call_cmp ''a.txt'' ''dirA/y.txt''
              \<or> Call_cmp ''a.txt'' ''dirA/y.txt'' = Call_open ''dirA/y.txt''"
    by simp
  have h3: "Call_stat ''dirA/w.txt'' \<in> set (fst (run fs_hello ?args))"
    unfolding run by simp
  have h4: "Call_cmp ''a.txt'' ''dirA/w.txt'' \<notin> set (fst (run fs_hello ?args))"
    unfolding run by simp
  have h5: "Call_open ''dirA/w.txt'' \<notin> set (fst (run fs_hello ?args))"
    unfolding run by simp
  from only_same_size_compared [OF h1 h2] h1 h3 h4 h5 show ?thesis by simp
qed

text \<open>
  C6.  A run that exits with status 2 has printed the help text, or tested the reference
  file and printed one of the two messages, and has done nothing else: no directory is
  tested or listed, no tagging call is made, and every file keeps its tags.
\<close>

theorem validation_error_touches_nothing:
  assumes "snd (run fs args) = Exit 2"
  shows "fst (run fs args) \<in>
      {[Print_help],
       [Call_isfile (reference_file_arg args),
        Print (''Reference file '' @ reference_file_arg args @ '' does not exist'')],
       [Call_isfile (reference_file_arg args), Call_stat (reference_file_arg args),
        Print (''Reference file '' @ reference_file_arg args @ '' is empty'')]}
    \<and> tags_after (fst (run fs args)) store = store"
proof (cases rule: run_cases [where args = args and fs = fs])
  case no_option
  with assms show ?thesis by simp
next
  case no_dirs
  then show ?thesis by (simp add: tags_after_def)
next
  case (no_file ds)
  then show ?thesis by (simp add: tags_after_def)
next
  case (empty ds r)
  then show ?thesis by (simp add: tags_after_def)
next
  case (valid ds rb r)
  let ?self = "scanning args (length rb)"
  obtain scan res where scan: "run_visits fs ?self (traversal fs ds) = (scan, res)"
    by (cases "run_visits fs ?self (traversal fs ds)") blast
  from run_visits_shape [of ?self fs "traversal fs ds"] scan
  have "res = None \<or> (\<exists>x. res = Some (Uncaught x)) \<or> res = Some (Exit 1)"
    by (auto simp: scan_shape_def)
  with run_validated [OF valid] scan have "snd (run fs args) \<noteq> Exit 2" by auto
  with assms show ?thesis by simp
qed

text \<open>On \<open>fs_empty\<close> the run stops at the empty reference file and a stale tag stays.\<close>

theorem validation_error_touches_nothing_witness:
  "snd (run fs_empty
     \<lparr>directory = Some [''dirA''], reference_file_arg = ''a.txt'', verbose_arg = False\<rparr>)
     = Exit 2
   \<and> fst (run fs_empty
     \<lparr>directory = Some [''dirA''], reference_file_arg = ''a.txt'', verbose_arg = False\<rparr>)
     = [Call_isfile ''a.txt'', Call_stat ''a.txt'', Print ''Reference file a.txt is empty'']
   \<and> tags_after (fst (run fs_empty
     \<lparr>directory = Some [''dirA''], reference_file_arg = ''a.txt'', verbose_arg = False\<rparr>))
     (\<lambda>p. [Tag ''Unique'' GREEN]) = (\<lambda>p. [Tag ''Unique'' GREEN])"
proof -
  let ?args = "\<lparr>directory = Some [''dirA''], reference_file_arg = ''a.txt'', verbose_arg = False\<rparr>"
  have run: "run fs_empty ?args =
      ([Call_isfile ''a.txt'', Call_stat ''a.txt'', Print ''Reference file a.txt is empty''],
       Exit 2)"
    by (simp add: run_def validate_args_def parse_args_def os_path_isfile_def os_stat_def
          fs_empty_def)
  then have h: "snd (run fs_empty ?args) = Exit 2" by simp
  from validation_error_touches_nothing [OF h, of "\<lambda>p. [Tag ''Unique'' GREEN]"] h run
  show ?thesis by simp
qed

text \<open>
  C7.  With at least one directory supplied: a reference path that is not a regular file
  makes the run print "does not exist" with the path and exit with status 2, before the
  size is read; a regular file of size 0 makes it print "is empty" with the path and exit
  with status 2.
\<close>

theorem reference_file_checks:
  assumes "directory args = Some ds" and "ds \<noteq> []"
  shows "((\<forall>b r. resolve fs (reference_file_arg args) \<noteq> Some (RegularFile b r)) \<longrightarrow>
            run fs args =
              ([Call_isfile (reference_file_arg args),
                Print (''Reference file '' @ reference_file_arg args @ '' does not exist'')],
               Exit 2))
       \<and> ((\<exists>r. resolve fs (reference_file_arg args) = Some (RegularFile [] r)) \<longrightarrow>
            run fs args =
              ([Call_isfile (reference_file_arg args), Call_stat (reference_file_arg args),
                Print (''Reference file '' @ reference_file_arg args @ '' is empty'')],
               Exit 2))"
proof (cases rule: run_cases [where args = args and fs = fs])
  case no_option
  with assms show ?thesis by simp
next
  case no_dirs
  with assms show ?thesis by simp
next
  case (no_file ds')
  then show ?thesis by simp
next
  case (empty ds' r)
  then show ?thesis by simp
next
  case (valid ds' rb r)
  then show ?thesis by auto
qed

text \<open>
  On \<open>fs_empty\<close>: a path that does not resolve, a directory of size 0 (not a regular
  file, so the first check stops the run), and the empty regular file.
\<close>

theorem reference_file_checks_witness:
  "run fs_empty
     \<lparr>directory = Some [''dirA''], reference_file_arg = ''nope.txt'', verbose_arg = False\<rparr>
     = ([Call_isfile ''nope.txt'', Print ''Reference file nope.txt does not exist''], Exit 2)
   \<and> run fs_empty
     \<lparr>directory = Some [''dirA''], reference_file_arg = ''dirA'', verbose_arg = False\<rparr>
     = ([Call_isfile ''dirA'', Print ''Reference file dirA does not exist''], Exit 2)
   \<and> run fs_empty
     \<lparr>directory = Some [''dirA''], reference_file_arg = ''a.txt'', verbose_arg = False\<rparr>
     = ([Call_isfile ''a.txt'', Call_stat ''a.txt'', Print ''Reference file a.txt is empty''],
        Exit 2)"
proof -
  let ?nope = "\<lparr>directory = Some [''dirA''], reference_file_arg = ''nope.txt'',
                 verbose_arg = False\<rparr>"
  let ?dir = "\<lparr>directory = Some [''dirA''], reference_file_arg = ''dirA'', verbose_arg = False\<rparr>"
  let ?empty = "\<lparr>directory = Some [''dirA''], reference_file_arg = ''a.txt'',
                  verbose_arg = False\<rparr>"
  have d: "[''dirA''] \<noteq> []" by simp
  have n1: "directory ?nope = Some [''dirA'']" by simp
  have n2: "\<forall>b r. resolve fs_empty (reference_file_arg ?nope) \<noteq> Some (RegularFile b r)"
    by (simp add: fs_empty_def)
  have d1: "directory ?dir = Some [''dirA'']" by simp
  have d2: "\<forall>b r. resolve fs_empty (reference_file_arg ?dir) \<noteq> Some (RegularFile b r)"
    by (simp add: fs_empty_def)
  have e1: "directory ?empty = Some [''dirA'']" by simp
  have e2: "\<exists>r. resolve fs_empty (reference_file_arg ?empty) = Some (RegularFile [] r)"
    by (rule exI [of _ True]) (simp add: fs_empty_def)
  from reference_file_checks [OF n1 d, of fs_empty] n2
       reference_file_checks [OF d1 d, of fs_empty] d2
       reference_file_checks [OF e1 d, of fs_empty] e2
  show ?thesis by simp
qed

text \<open>
  C8.  In a run that passes validation the first side effect is the clearing of the
  reference file's tags; after it there is no second clearing and at most one tag is
  added, "Duplicate" or "Unique"; none is added when the message of a missing directory
  is printed; so the reference file ends with no tag or with exactly one of the two.
\<close>

theorem tags_cleared_once_then_one_tag:
  assumes "directory args = Some ds" and "ds \<noteq> []"
    and "resolve fs (reference_file_arg args) = Some (RegularFile rb r)" and "rb \<noteq> []"
  shows "\<exists>scan.
    fst (run fs args) =
      [Call_isfile (reference_file_arg args), Call_stat (reference_file_arg args),
       Tags_remove_all (reference_file_arg args)] @ scan
    \<and> filter is_tagging scan \<in>
        {[], [Tags_add (Tag ''Duplicate'' RED) (reference_file_arg args)],
         [Tags_add (Tag ''Unique'' GREEN) (reference_file_arg args)]}
    \<and> (\<forall>d. Print (''Directory '' @ d @ '' does not exist'') \<in> set scan \<longrightarrow>
           filter is_tagging scan = [])
    \<and> tags_after (fst (run fs args)) store (reference_file_arg args) \<in>
        {[], [Tag ''Duplicate'' RED], [Tag ''Unique'' GREEN]}"
proof -
  let ?self = "scanning args (length rb)"
  let ?ref = "reference_file_arg args"
  let ?dup = "Tags_add (Tag ''Duplicate'' RED) ?ref"
  let ?uniq = "Tags_add (Tag ''Unique'' GREEN) ?ref"
  obtain evs res where scan: "run_visits fs ?self (traversal fs ds) = (evs, res)"
    by (cases "run_visits fs ?self (traversal fs ds)") blast
  define rest where
    "rest = Call_stat ?ref # evs @ (case res of None \<Rightarrow> [?uniq] | Some out \<Rightarrow> [])"
  have run: "fst (run fs args) = [Call_isfile ?ref, Call_stat ?ref, Tags_remove_all ?ref] @ rest"
    using run_validated [OF assms] scan by (cases res) (simp_all add: rest_def)
  have tg_evs: "filter is_tagging evs = filter is_tagging (filter is_effect evs)"
    by (simp only: filter_tagging_effect)
  from run_visits_shape [of ?self fs "traversal fs ds"] scan
  have "scan_shape ?self (evs, res)" by simp
  then have "(filter is_effect evs = [] \<and> (res = None \<or> (\<exists>x. res = Some (Uncaught x))))
      \<or> (\<exists>d. filter is_effect evs = [Print (''Directory '' @ d @ '' does not exist'')]
             \<and> res = Some (Exit 1))
      \<or> (\<exists>c. filter is_effect evs =
               ?dup # (if verbose_arg args
                       then [Print (''File '' @ c @ '' is identical to '' @ ?ref)] else [])
             \<and> res = Some (Exit 1))"
    unfolding scan_shape_def fst_conv snd_conv scanning_simps .
  then consider
    (through) "filter is_effect evs = []" "res = None"
  | (raised) x where "filter is_effect evs = []" "res = Some (Uncaught x)"
  | (nodir) d where "filter is_effect evs = [Print (''Directory '' @ d @ '' does not exist'')]"
      "res = Some (Exit 1)"
  | (copy) c where "filter is_effect evs =
        ?dup # (if verbose_arg args
                then [Print (''File '' @ c @ '' is identical to '' @ ?ref)] else [])"
      "res = Some (Exit 1)"
    by blast
  then have shape:
    "filter is_tagging rest \<in> {[], [?dup], [?uniq]}
     \<and> (\<forall>d. Print (''Directory '' @ d @ '' does not exist'') \<in> set rest \<longrightarrow>
            filter is_tagging rest = [])"
  proof cases
    case through
    have "Print s \<notin> set evs" for s
      using effect_in_filter [of "Print s" evs] through(1) by auto
    with through tg_evs show ?thesis by (simp add: rest_def)
  next
    case (raised x)
    with tg_evs show ?thesis by (simp add: rest_def)
  next
    case (nodir d)
    with tg_evs show ?thesis by (simp add: rest_def)
  next
    case (copy c)
    have "Print (''Directory '' @ d @ '' does not exist'') \<notin> set evs" for d
      using effect_in_filter [of "Print (''Directory '' @ d @ '' does not exist'')" evs] copy(1)
      by (auto split: if_splits)
    with copy tg_evs show ?thesis by (simp add: rest_def)
  qed
  have "tags_after (fst (run fs args)) store ?ref =
          tags_after (filter is_tagging (fst (run fs args))) store ?ref"
    by (rule arg_cong [OF tags_after_filter])
  also have "\<dots> = tags_after (Tags_remove_all ?ref # filter is_tagging rest) store ?ref"
    unfolding run by simp
  finally have "tags_after (fst (run fs args)) store ?ref \<in>
        {[], [Tag ''Duplicate'' RED], [Tag ''Unique'' GREEN]}"
    using shape by (auto simp: tags_after_def)
  with run shape show ?thesis by blast
qed

text \<open>On \<open>fs_hello\<close>, starting with both tags on the reference file.\<close>

theorem tags_cleared_once_then_one_tag_witness:
  "\<exists>scan.
    fst (run fs_hello
      \<lparr>directory = Some [''dirA''], reference_file_arg = ''a.txt'', verbose_arg = False\<rparr>) =
      [Call_isfile ''a.txt'', Call_stat ''a.txt'', Tags_remove_all ''a.txt''] @ scan
    \<and> filter is_tagging scan \<in>
        {[], [Tags_add (Tag ''Duplicate'' RED) ''a.txt''],
         [Tags_add (Tag ''Unique'' GREEN) ''a.txt'']}
    \<and> (\<forall>d. Print (''Directory '' @ d @ '' does not exist'') \<in> set scan \<longrightarrow>
           filter is_tagging scan = [])
    \<and> tags_after (fst (run fs_hello
         \<lparr>directory = Some [''dirA''], reference_file_arg = ''a.txt'', verbose_arg = False\<rparr>))
        (\<lambda>p. [Tag ''Unique'' GREEN, Tag ''Duplicate'' RED]) ''a.txt'' \<in>
        {[], [Tag ''Duplicate'' RED], [Tag ''Unique'' GREEN]}"
proof -
  let ?args = "\<lparr>directory = Some [''dirA''], reference_file_arg = ''a.txt'', verbose_arg = False\<rparr>"
  have h1: "directory ?args = Some [''dirA'']" by simp
  have h2: "[''dirA''] \<noteq> []" by simp
  have h3: "resolve fs_hello (reference_file_arg ?args) = Some (RegularFile ''hello'' True)"
    by (simp add: fs_hello_def)
  have h4: "''hello'' \<noteq> []" by simp
  from tags_cleared_once_then_one_tag [OF h1 h2 h3 h4,
      of "\<lambda>p. [Tag ''Unique'' GREEN, Tag ''Duplicate'' RED]"]
  show ?thesis by simp
qed



text \<open>
  C10.  The stat of a candidate is unguarded: when the scan reaches an entry that does
  not resolve, \<^verbatim>\<open>os.stat\<close> raises, nothing catches the exception, the process ends
  without an exit status of its own, and no tag is added after the clearing.
\<close>

theorem unstatable_entry_raises:
  assumes "directory args = Some ds"
    and "resolve fs (reference_file_arg args) = Some (RegularFile rb True)" and "rb \<noteq> []"
    and "traversal fs ds = pre @ Candidate c # post"
    and "\<forall>v\<in>set pre. passes fs rb v"
    and "resolve fs c = None"
  shows "\<exists>scan.
    run fs args =
      ([Call_isfile (reference_file_arg args), Call_stat (reference_file_arg args),
        Tags_remove_all (reference_file_arg args), Call_stat (reference_file_arg args)]
       @ scan @ [Call_stat c], Uncaught (OSError c))
    \<and> filter is_probe scan = map probe pre
    \<and> filter is_effect scan = []
    \<and> tags_after (fst (run fs args)) store (reference_file_arg args) = []"
proof -
  let ?self = "scanning args (length rb)"
  let ?ref = "reference_file_arg args"
  let ?pre = "[Call_isfile ?ref, Call_stat ?ref, Tags_remove_all ?ref, Call_stat ?ref]"
  have ref: "resolve fs (reference_file ?self) = Some (RegularFile rb True)"
    using assms(2) by simp
  have sz: "ref_size ?self = length rb" by simp
  from assms(4) have ne: "ds \<noteq> []" by auto
  have step: "visit_step fs ?self (Candidate c) = ([Call_stat c], Some (Uncaught (OSError c)))"
    using check_file_unstatable [OF assms(6)] by simp
  from run_visits_stop [OF ref sz assms(5) step, of post] obtain evs where
    evs: "run_visits fs ?self (pre @ Candidate c # post)
            = (evs @ [Call_stat c], Some (Uncaught (OSError c)))"
         "filter is_probe evs = map probe pre" "filter is_effect evs = []" by blast
  have run: "run fs args = (?pre @ evs @ [Call_stat c], Uncaught (OSError c))"
    using run_validated [OF assms(1) ne assms(2,3)] evs(1) assms(4) by simp
  have "tags_after (fst (run fs args)) store ?ref =
          tags_after (filter is_effect (?pre @ evs @ [Call_stat c])) store ?ref"
    unfolding run fst_conv by (rule arg_cong [OF tags_after_effects])
  also have "\<dots> = []"
    unfolding filter_append by (simp add: tags_after_def evs(3))
  finally have "tags_after (fst (run fs args)) store ?ref = []" .
  with run evs(2,3) show ?thesis by blast
qed

text \<open>
  On \<open>fs_link\<close> the dangling link comes first: the run ends there, and the copy that
  follows it is never seen.
\<close>

theorem unstatable_entry_raises_witness:
  "\<exists>scan.
     run fs_link \<lparr>directory = Some [''dirA''], reference_file_arg = ''a.txt'', verbose_arg = True\<rparr> =
       ([Call_isfile ''a.txt'', Call_stat ''a.txt'', Tags_remove_all ''a.txt'', Call_stat ''a.txt'']
        @ scan @ [Call_stat ''dirA/gone''], Uncaught (OSError ''dirA/gone''))
     \<and> filter is_probe scan = [Call_isdir ''dirA'', Walk_yield ''dirA'']
     \<and> filter is_effect scan = []
     \<and> tags_after
          (fst (run fs_link
             \<lparr>directory = Some [''dirA''], reference_file_arg = ''a.txt'', verbose_arg = True\<rparr>))
          (\<lambda>p. [Tag ''Unique'' GREEN]) ''a.txt'' = []"
proof -
  let ?args = "\<lparr>directory = Some [''dirA''], reference_file_arg = ''a.txt'', verbose_arg = True\<rparr>"
  let ?pre = "[Root ''dirA'', Listing ''dirA'']"
  have h1: "directory ?args = Some [''dirA'']" by simp
  have h2: "resolve fs_link (reference_file_arg ?args) = Some (RegularFile ''hello'' True)"
    by (simp add: fs_link_def)
  have h3: "''hello'' \<noteq> []" by simp
  have h4: "traversal fs_link [''dirA''] =
      ?pre @ Candidate ''dirA/gone'' # [Candidate ''dirA/x.txt'']"
    by (simp add: fs_link_def os_path_join_def)
  have h5: "\<forall>v\<in>set ?pre. passes fs_link ''hello'' v"
    by (simp add: fs_link_def os_path_isdir_def os_stat_def)
  have h6: "resolve fs_link ''dirA/gone'' = None"
    by (simp add: fs_link_def)
  from unstatable_entry_raises [OF h1 h2 h3 h4 h5 h6, of "\<lambda>p. [Tag ''Unique'' GREEN]"]
  show ?thesis by simp
qed

end
